theory Spec2Isabelle
  imports Main "HOL-Library.Sublist"
begin

section \<open>PandasPlotBench: the plot-building and result-extraction pipeline\<close>

text \<open>
  A shallow embedding of \<^verbatim>\<open>plotting_benchmark/vis_generator.py\<close>. Python strings are
  modelled as \<^typ>\<open>string\<close> (lists of 8-bit characters), Python integers as \<^typ>\<open>int\<close>,
  exceptions as values of \<open>py_error\<close> returned in the left summand.
\<close>

subsection \<open>Exceptions\<close>

datatype py_error =
    FileNotFoundError string
  | ValueError
  | KeyError string
  | AttributeError

subsection \<open>Python string operations used by the source\<close>

text \<open>\<^verbatim>\<open>s.lstrip(chars)\<close>: drop every leading character that occurs in \<open>chars\<close>.\<close>

definition lstrip :: "string \<Rightarrow> string \<Rightarrow> string" where
  "lstrip chars s = dropWhile (\<lambda>c. c \<in> set chars) s"

text \<open>\<^verbatim>\<open>s.startswith(p)\<close>.\<close>

definition startswith :: "string \<Rightarrow> string \<Rightarrow> bool" where
  "startswith s p = prefix p s"

text \<open>\<^verbatim>\<open>s.split(sep)\<close> for a separator of one character: never the empty list.\<close>

fun split :: "char \<Rightarrow> string \<Rightarrow> string list" where
  "split sep [] = [[]]"
| "split sep (c # cs) =
     (if c = sep then [] # split sep cs
      else (case split sep cs of
              [] \<Rightarrow> [[c]]
            | w # ws \<Rightarrow> (c # w) # ws))"

text \<open>\<^verbatim>\<open>sep.join(blocks)\<close>.\<close>

fun join :: "string \<Rightarrow> string list \<Rightarrow> string" where
  "join sep [] = []"
| "join sep [b] = b"
| "join sep (b # bs) = b @ sep @ join sep bs"

text \<open>\<^verbatim>\<open>sub in s\<close> on strings: \<open>sub\<close> occurs as a contiguous substring.\<close>

fun contains :: "string \<Rightarrow> string \<Rightarrow> bool" where
  "contains [] sub = (sub = [])"
| "contains (c # cs) sub = (prefix sub (c # cs) \<or> contains cs sub)"

text \<open>
  \<^verbatim>\<open>str(n)\<close> for an integer, which is what the f-string \<^verbatim>\<open>f"{item['id']}"\<close> inserts:
  decimal digits, most significant first, a leading minus sign for a negative number.
\<close>

definition digit_char :: "nat \<Rightarrow> char" where
  "digit_char d = char_of (48 + d)"

fun str_nat :: "nat \<Rightarrow> string" where
  "str_nat n = (if n < 10 then [digit_char n] else str_nat (n div 10) @ [digit_char (n mod 10)])"

declare str_nat.simps [simp del]

definition str_int :: "int \<Rightarrow> string" where
  "str_int n = (if n < 0 then CHR ''-'' # str_nat (nat (- n)) else str_nat (nat n))"

text \<open>
  \<^verbatim>\<open>int(s)\<close> on a string, base ten: surrounding whitespace is stripped, one optional
  sign, then decimal digits in which single underscores may separate digits. Anything
  else raises \<^verbatim>\<open>ValueError\<close> (here \<open>None\<close>).
\<close>

definition isspace :: "char \<Rightarrow> bool" where
  "isspace c = ((of_char c :: nat) \<in> {9, 10, 11, 12, 13, 28, 29, 30, 31, 32, 133, 160})"

definition strip_space :: "string \<Rightarrow> string" where
  "strip_space s = rev (dropWhile isspace (rev (dropWhile isspace s)))"

definition digit_val :: "char \<Rightarrow> nat option" where
  "digit_val c = (if 48 \<le> (of_char c :: nat) \<and> (of_char c :: nat) \<le> 57
                  then Some (of_char c - 48) else None)"

fun more_digits :: "nat \<Rightarrow> string \<Rightarrow> nat option" where
  "more_digits acc [] = Some acc"
| "more_digits acc [c] =
     (case digit_val c of None \<Rightarrow> None | Some v \<Rightarrow> Some (10 * acc + v))"
| "more_digits acc (c # d # rest) =
     (if c = CHR ''_'' then
        (case digit_val d of None \<Rightarrow> None | Some v \<Rightarrow> more_digits (10 * acc + v) rest)
      else
        (case digit_val c of None \<Rightarrow> None | Some v \<Rightarrow> more_digits (10 * acc + v) (d # rest)))"

definition digits :: "string \<Rightarrow> nat option" where
  "digits s = (case s of [] \<Rightarrow> None
               | c # rest \<Rightarrow> (case digit_val c of None \<Rightarrow> None | Some v \<Rightarrow> more_digits v rest))"

definition py_int :: "string \<Rightarrow> int option" where
  "py_int s =
     (case strip_space s of
        [] \<Rightarrow> None
      | c # rest \<Rightarrow>
          if c = CHR ''-'' then map_option (\<lambda>n. - int n) (digits rest)
          else if c = CHR ''+'' then map_option int (digits rest)
          else map_option int (digits (c # rest)))"

text \<open>
  \<^verbatim>\<open>s.replace(old, new)\<close>: every non-overlapping occurrence of \<open>old\<close>, found from the
  left, becomes \<open>new\<close>; an empty \<open>old\<close> matches before every character and at the end.
\<close>

function replace :: "string \<Rightarrow> string \<Rightarrow> string \<Rightarrow> string" where
  "replace [] old new = (if old = [] then new else [])"
| "replace (c # cs) old new =
     (if old = [] then new @ c # replace cs old new
      else if prefix old (c # cs) then new @ replace (drop (length old) (c # cs)) old new
      else c # replace cs old new)"
  by pat_completeness auto
termination
  by (relation "measure (\<lambda>(s, old, new). length s)") auto

text \<open>\<^verbatim>\<open>s.lower()\<close> on 8-bit characters read as Latin-1 code points.\<close>

definition lower_char :: "char \<Rightarrow> char" where
  "lower_char c =
     (let n = (of_char c :: nat) in
      if (65 \<le> n \<and> n \<le> 90) \<or> (192 \<le> n \<and> n \<le> 222 \<and> n \<noteq> 215) then char_of (n + 32) else c)"

definition lower :: "string \<Rightarrow> string" where
  "lower s = map lower_char s"

subsection \<open>Paths and the file system\<close>

text \<open>
  A \<^verbatim>\<open>pathlib.Path\<close> with a final component: the directory part and the name. The file
  system is the list of the paths that exist; \<^verbatim>\<open>p.exists()\<close> is membership.
  \<open>path_div folder filename\<close> is \<^verbatim>\<open>Path(folder) / filename\<close> for a \<open>filename\<close> that is
  a single path component, which is how both callers in the source use it.
\<close>

record path =
  parent :: string
  name :: string

type_synonym filesystem = "path list"

definition path_exists :: "filesystem \<Rightarrow> path \<Rightarrow> bool" where
  "path_exists fs p = (p \<in> set fs)"

definition path_div :: "string \<Rightarrow> string \<Rightarrow> path" where
  "path_div folder filename = \<lparr>parent = folder, name = filename\<rparr>"

text \<open>\<^verbatim>\<open>str(PurePosixPath(p))\<close>: the forward-slash form.\<close>

definition posix_str :: "path \<Rightarrow> string" where
  "posix_str p = parent p @ ''/'' @ name p"

text \<open>
  \<^verbatim>\<open>name.rfind('.')\<close>, and \<^verbatim>\<open>suffix\<close> and \<^verbatim>\<open>stem\<close> of a name as \<^verbatim>\<open>pathlib\<close> computes them:
  the suffix starts at the last dot when that dot is neither the first nor the last
  character of the name.
\<close>

definition rfind_dot :: "string \<Rightarrow> nat option" where
  "rfind_dot nm =
     (if CHR ''.'' \<in> set nm
      then Some (length nm - 1 - length (takeWhile (\<lambda>c. c \<noteq> CHR ''.'') (rev nm)))
      else None)"

definition suffix_of :: "string \<Rightarrow> string" where
  "suffix_of nm =
     (case rfind_dot nm of
        None \<Rightarrow> []
      | Some i \<Rightarrow> if 0 < i \<and> i + 1 < length nm then drop i nm else [])"

definition stem :: "string \<Rightarrow> string" where
  "stem nm =
     (case rfind_dot nm of
        None \<Rightarrow> nm
      | Some i \<Rightarrow> if 0 < i \<and> i + 1 < length nm then take i nm else nm)"

text \<open>
  \<^verbatim>\<open>p.with_name(nm)\<close> raises \<^verbatim>\<open>ValueError\<close> when \<open>p\<close> has an empty name or \<open>nm\<close> is not a
  valid single component; \<^verbatim>\<open>p.with_stem(s)\<close> is \<^verbatim>\<open>p.with_name(s + p.suffix)\<close>.
\<close>

definition with_name :: "path \<Rightarrow> string \<Rightarrow> py_error + path" where
  "with_name p nm =
     (if name p = [] then Inl ValueError
      else if nm = [] \<or> CHR ''/'' \<in> set nm \<or> nm = ''.'' then Inl ValueError
      else Inr (p\<lparr>name := nm\<rparr>))"

definition with_stem :: "path \<Rightarrow> string \<Rightarrow> py_error + path" where
  "with_stem p s = with_name p (s @ suffix_of (name p))"

subsection \<open>\<^verbatim>\<open>add_index_to_filename\<close>\<close>

text \<open>
  The \<^verbatim>\<open>while results_file.exists()\<close> loop, with the loop variables \<open>results_file\<close>,
  \<open>i\<close> and \<open>last_existing_file\<close> as arguments. Nothing in the loop bounds the number
  of iterations, so the result is an option: \<open>None\<close> is a loop that never ends.
\<close>

partial_function (option) probe_loop ::
  "filesystem \<Rightarrow> path \<Rightarrow> path \<Rightarrow> nat \<Rightarrow> path option \<Rightarrow> (py_error + path \<times> path option) option"
where
  "probe_loop fs results_file_base results_file i last_existing_file =
     (if path_exists fs results_file then
        (case with_stem results_file_base
                (stem (name results_file_base) @ ''_'' @ str_nat (i + 1)) of
           Inl e \<Rightarrow> Some (Inl e)
         | Inr next_file \<Rightarrow>
             probe_loop fs results_file_base next_file (i + 1) (Some results_file))
      else Some (Inr (results_file, last_existing_file)))"

definition add_index_to_filename ::
  "filesystem \<Rightarrow> string \<Rightarrow> string \<Rightarrow> string \<Rightarrow> (py_error + path \<times> path option) option"
where
  "add_index_to_filename fs folder filename postfix =
     (case with_stem (path_div folder filename) (stem filename @ postfix) of
        Inl e \<Rightarrow> Some (Inl e)
      | Inr results_file_base \<Rightarrow>
          (case with_stem results_file_base (stem (name results_file_base) @ ''_0'') of
             Inl e \<Rightarrow> Some (Inl e)
           | Inr results_file \<Rightarrow> probe_loop fs results_file_base results_file 0 None))"

subsection \<open>Notebooks\<close>

text \<open>
  An output of a cell, as \<^verbatim>\<open>nbformat\<close> reads it: \<open>ename\<close> and \<open>evalue\<close> are read by the
  source only on an output of type \<^verbatim>\<open>error\<close>, \<open>data\<close> (a dictionary from MIME type to
  payload, here an association list) only on one of type \<^verbatim>\<open>display_data\<close>.
\<close>

record nb_output =
  output_type :: string
  ename :: string
  evalue :: string
  data :: "(string \<times> string) list"

record cell =
  cell_type :: string
  source :: string
  outputs :: "nb_output list"

record notebook =
  cells :: "cell list"

text \<open>
  The dictionary \<^verbatim>\<open>cell_res\<close> of \<^verbatim>\<open>parse_plots_notebook\<close>; its key \<^verbatim>\<open>id\<close> is the field
  \<open>res_id\<close>.
\<close>

record cell_res =
  res_id :: int
  error :: string
  plots_generated :: "string list"
  has_plot :: bool

subsection \<open>\<^verbatim>\<open>VisGenerator\<close>: construction and \<^verbatim>\<open>check_csv\<close>\<close>

text \<open>A row of the dataset: the fields of an item that the source reads.\<close>

record item =
  item_id :: int
  code_data :: string
  code :: string

record config =
  plotting_lib :: string

record vis_generator =
  output_folder :: string
  plots_nb_path :: path
  config :: "config option"
  csv_folder :: string

fun check_csv :: "filesystem \<Rightarrow> vis_generator \<Rightarrow> item list \<Rightarrow> py_error + unit" where
  "check_csv fs self [] = Inr ()"
| "check_csv fs self (item # dataset) =
     (let csv_path = path_div (csv_folder self) (''data-'' @ str_int (item_id item) @ ''.csv'') in
      if \<not> path_exists fs csv_path then
        Inl (FileNotFoundError (''Unpacked csv datafile not found on '' @ posix_str csv_path))
      else check_csv fs self dataset)"

definition init :: "filesystem \<Rightarrow> string \<Rightarrow> item list \<Rightarrow> string \<Rightarrow> config option \<Rightarrow> py_error + vis_generator" where
  "init fs output_folder' dataset csv_folder' config' =
     (let self = \<lparr>output_folder = output_folder',
                  plots_nb_path = path_div output_folder' ''all_plots.ipynb'',
                  config = config',
                  csv_folder = csv_folder'\<rparr> in
      case check_csv fs self dataset of
        Inl e \<Rightarrow> Inl e
      | Inr u \<Rightarrow> Inr self)"

subsection \<open>\<^verbatim>\<open>VisGenerator.build_new_nb\<close>\<close>

definition new_code_cell :: "string \<Rightarrow> cell" where
  "new_code_cell block = \<lparr>cell_type = ''code'', source = block, outputs = []\<rparr>"

text \<open>The notebook of the first two statements: one code cell for each block.\<close>

definition new_notebook :: "string list \<Rightarrow> notebook" where
  "new_notebook blocks = \<lparr>cells = map new_code_cell blocks\<rparr>"

text \<open>
  \<open>build_new_nb\<close> writes that notebook to \<^verbatim>\<open>self.plots_nb_path\<close> and the result is the
  notebook written. \<^verbatim>\<open>open(path, "w")\<close> raises \<^verbatim>\<open>FileNotFoundError\<close> when the directory
  of the path does not exist; \<open>dirs\<close> is the list of the directories that exist.
\<close>

definition build_new_nb :: "string list \<Rightarrow> vis_generator \<Rightarrow> string list \<Rightarrow> py_error + notebook" where
  "build_new_nb dirs self blocks =
     (let nb = new_notebook blocks in
      if parent (plots_nb_path self) \<notin> set dirs then
        Inl (FileNotFoundError
               (''[Errno 2] No such file or directory: '' @ [CHR 0x27] @
                posix_str (plots_nb_path self) @ [CHR 0x27]))
      else Inr nb)"

subsection \<open>\<^verbatim>\<open>VisGenerator.generate_code\<close>\<close>

definition generate_code :: "filesystem \<Rightarrow> vis_generator \<Rightarrow> item \<Rightarrow> string \<Rightarrow> py_error + string" where
  "generate_code fs self item plotting_lib' =
     (let csv_path = path_div (csv_folder self) (''data-'' @ str_int (item_id item) @ ''.csv'') in
      if \<not> path_exists fs csv_path then
        Inl (FileNotFoundError (''Unpacked csv datafile not found on '' @ posix_str csv_path))
      else
        let data_path_unix = posix_str csv_path;
            data_load_code = replace (code_data item) ''data.csv'' data_path_unix;
            generated_code = code item;
            code_blocks = [''# id = '' @ str_int (item_id item)];
            code_blocks =
              (if contains plotting_lib' ''matplotlib'' \<or> contains plotting_lib' ''seaborn''
               then code_blocks @ [''%matplotlib inline''] else code_blocks);
            code_blocks =
              (if contains plotting_lib' ''plotly''
               then code_blocks @
                    [''import plotly.io as pio'',
                     ''pio.renderers.default = '' @ [CHR 0x22] @ ''png'' @ [CHR 0x22]]
               else code_blocks);
            code_blocks = code_blocks @ [data_load_code, generated_code];
            code_blocks =
              (if contains plotting_lib' ''matplotlib'' \<or> contains plotting_lib' ''seaborn''
               then code_blocks @ [''plt.rcParams.update(plt.rcParamsDefault)''] else code_blocks);
            code_blocks =
              (if contains plotting_lib' ''seaborn''
               then code_blocks @ [''sns.reset_orig()''] else code_blocks);
            code_blocks = code_blocks @ [''%reset -f''];
            plot_code_nb = join [CHR 0x0A] code_blocks
        in Inr plot_code_nb)"

subsection \<open>\<^verbatim>\<open>VisGenerator.build_plots\<close>\<close>

text \<open>
  \<^verbatim>\<open>dataset.apply(self.generate_code, axis=1, args=(plotting_lib,)).tolist()\<close>.
  \<open>apply_rows\<close> is the traversal of the rows in order, the first exception ending it.
  On a frame without rows \<^verbatim>\<open>apply\<close> returns a frame, not a series, and \<^verbatim>\<open>.tolist()\<close>
  raises \<^verbatim>\<open>AttributeError\<close>.
\<close>

fun apply_rows ::
  "filesystem \<Rightarrow> vis_generator \<Rightarrow> string \<Rightarrow> item list \<Rightarrow> py_error + string list" where
  "apply_rows fs self plotting_lib' [] = Inr []"
| "apply_rows fs self plotting_lib' (item # dataset) =
     (case generate_code fs self item plotting_lib' of
        Inl e \<Rightarrow> Inl e
      | Inr plot_cell \<Rightarrow>
          (case apply_rows fs self plotting_lib' dataset of
             Inl e \<Rightarrow> Inl e
           | Inr plot_cells \<Rightarrow> Inr (plot_cell # plot_cells)))"

definition apply_generate_code ::
  "filesystem \<Rightarrow> vis_generator \<Rightarrow> string \<Rightarrow> item list \<Rightarrow> py_error + string list" where
  "apply_generate_code fs self plotting_lib' dataset =
     (if dataset = [] then Inl AttributeError else apply_rows fs self plotting_lib' dataset)"

text \<open>
  \<open>build_plots\<close> up to the notebook it writes. The source then hands the file to
  \<^verbatim>\<open>jupyter nbconvert --execute --allow-errors --inplace\<close>, a separate program, through
  \<^verbatim>\<open>subprocess.call\<close>, which returns the exit status and does not raise on a failure of
  that program.
\<close>

definition build_plots ::
  "filesystem \<Rightarrow> string list \<Rightarrow> vis_generator \<Rightarrow> item list \<Rightarrow> py_error + notebook" where
  "build_plots fs dirs self dataset =
     (case config self of
        None \<Rightarrow> Inl AttributeError
      | Some cfg \<Rightarrow>
          let plotting_lib' = lower (plotting_lib cfg);
              setup_cell = [];
              setup_cell =
                (if contains plotting_lib' ''lets-plot'' then
                   [join [CHR 0x0A]
                      [''# Setup'',
                       ''!pip install lets-plot'',
                       ''!jupyter nbextension install lets-plot --py --sys-prefix'',
                       ''!jupyter nbextension enable lets-plot --py --sys-prefix'']]
                 else setup_cell)
          in case apply_generate_code fs self plotting_lib' dataset of
               Inl e \<Rightarrow> Inl e
             | Inr plot_cells \<Rightarrow> build_new_nb dirs self (setup_cell @ plot_cells))"

subsection \<open>\<^verbatim>\<open>VisGenerator.parse_plots_notebook\<close>\<close>

text \<open>
  The inner loop over \<^verbatim>\<open>cell["outputs"]\<close>. The state is the pair of
  \<^verbatim>\<open>cell_res["error"]\<close> and \<^verbatim>\<open>images\<close> (\<^verbatim>\<open>img_num\<close> is written and never read).
\<close>

fun scan_outputs :: "nb_output list \<Rightarrow> string \<times> string list \<Rightarrow> string \<times> string list" where
  "scan_outputs [] st = st"
| "scan_outputs (output # rest) (err, images) =
     (if output_type output = ''error'' then
        scan_outputs rest (ename output @ '': '' @ evalue output, images)
      else if output_type output = ''display_data'' then
        (case map_of (data output) ''image/png'' of
           Some img \<Rightarrow> scan_outputs rest (err, images @ [img])
         | None \<Rightarrow> scan_outputs rest (err, images))
      else scan_outputs rest (err, images))"

text \<open>
  The outer loop over \<^verbatim>\<open>nb.cells\<close>, with \<^verbatim>\<open>plot_results\<close> as the accumulator. The two
  \<^verbatim>\<open>continue\<close> statements are the first two branches; \<^verbatim>\<open>int(...)\<close> raising is the third.
\<close>

fun parse_cells :: "cell list \<Rightarrow> cell_res list \<Rightarrow> py_error + cell_res list" where
  "parse_cells [] plot_results = Inr plot_results"
| "parse_cells (cell # rest) plot_results =
     (if cell_type cell \<noteq> ''code'' then parse_cells rest plot_results
      else
        let code = lstrip [CHR 0x0A] (source cell) in
        if \<not> startswith code ''# id = '' then parse_cells rest plot_results
        else
          (case py_int (lstrip ''# id = '' (hd (split (CHR 0x0A) code))) of
             None \<Rightarrow> Inl ValueError
           | Some idx \<Rightarrow>
               let (err, images) = scan_outputs (outputs cell) ([], []) in
               parse_cells rest
                 (plot_results @
                  [\<lparr>res_id = idx, error = err, plots_generated = images,
                    has_plot = (length images > 0)\<rparr>])))"

definition parse_plots_notebook :: "notebook \<Rightarrow> py_error + cell_res list" where
  "parse_plots_notebook nb = parse_cells (cells nb) []"

subsection \<open>The merge at the end of \<^verbatim>\<open>VisGenerator.draw_plots\<close>\<close>

text \<open>
  A \<^verbatim>\<open>pandas.DataFrame\<close>: the column index and the rows, each row a dictionary from
  column name to value. \<open>NaN\<close> is the missing value a left join fills in.
\<close>

datatype pd_value = IntV int | StrV string | BoolV bool | ListV "string list" | NaN

type_synonym row = "(string \<times> pd_value) list"

record dataframe =
  columns :: "string list"
  rows :: "row list"

text \<open>\<^verbatim>\<open>a.intersection(b)\<close> on column indexes, in the order of \<open>a\<close>.\<close>

definition intersection :: "string list \<Rightarrow> string list \<Rightarrow> string list" where
  "intersection a b = remdups [c \<leftarrow> a. c \<in> set b]"

text \<open>\<^verbatim>\<open>index.drop(label)\<close>: \<^verbatim>\<open>KeyError\<close> when the label is not in the index.\<close>

definition index_drop :: "string list \<Rightarrow> string \<Rightarrow> py_error + string list" where
  "index_drop idx label =
     (if label \<notin> set idx then Inl (KeyError label) else Inr [c \<leftarrow> idx. c \<noteq> label])"

text \<open>\<^verbatim>\<open>df.drop(columns=cols)\<close>: \<^verbatim>\<open>KeyError\<close> when a column is not in the frame.\<close>

definition drop_columns :: "dataframe \<Rightarrow> string list \<Rightarrow> py_error + dataframe" where
  "drop_columns df cols =
     (case [c \<leftarrow> cols. c \<notin> set (columns df)] of
        c # cs \<Rightarrow> Inl (KeyError c)
      | [] \<Rightarrow> Inr \<lparr>columns = [c \<leftarrow> columns df. c \<notin> set cols],
                   rows = map (\<lambda>r. [(c, v) \<leftarrow> r. c \<notin> set cols]) (rows df)\<rparr>)"

text \<open>
  \<^verbatim>\<open>left.merge(right, on=key, how="left")\<close>. A column other than the key that both
  frames have is kept twice, renamed with the suffixes \<^verbatim>\<open>_x\<close> and \<^verbatim>\<open>_y\<close>. Every row
  of \<open>left\<close> gives one row for each row of \<open>right\<close> with the same key, and one row
  filled with \<open>NaN\<close> when there is none. The key columns must have compatible types:
  \<^verbatim>\<open>merge\<close> raises \<^verbatim>\<open>ValueError\<close> when one is a column of strings and the other a column of
  integers. The model covers key columns of integers and of strings.
\<close>

definition int_valued :: "string \<Rightarrow> row \<Rightarrow> bool" where
  "int_valued key r = (case map_of r key of Some (IntV n) \<Rightarrow> True | _ \<Rightarrow> False)"

definition str_valued :: "string \<Rightarrow> row \<Rightarrow> bool" where
  "str_valued key r = (case map_of r key of Some (StrV s) \<Rightarrow> True | _ \<Rightarrow> False)"

definition int_keys :: "dataframe \<Rightarrow> string \<Rightarrow> bool" where
  "int_keys df key = (rows df \<noteq> [] \<and> list_all (int_valued key) (rows df))"

definition str_keys :: "dataframe \<Rightarrow> string \<Rightarrow> bool" where
  "str_keys df key = (rows df \<noteq> [] \<and> list_all (str_valued key) (rows df))"

definition merge_left :: "dataframe \<Rightarrow> dataframe \<Rightarrow> string \<Rightarrow> py_error + dataframe" where
  "merge_left left right key =
     (if key \<notin> set (columns left) \<or> key \<notin> set (columns right) then Inl (KeyError key)
      else if (str_keys left key \<and> int_keys right key) \<or> (int_keys left key \<and> str_keys right key)
      then Inl ValueError
      else
        let overlap = [c \<leftarrow> columns left. c \<in> set (columns right) \<and> c \<noteq> key];
            lname = (\<lambda>c. if c \<in> set overlap then c @ ''_x'' else c);
            rname = (\<lambda>c. if c \<in> set overlap then c @ ''_y'' else c);
            rcols = [c \<leftarrow> columns right. c \<noteq> key];
            lrow = (\<lambda>l. map (\<lambda>(c, v). (lname c, v)) l);
            rrow = (\<lambda>r. map (\<lambda>(c, v). (rname c, v)) [(c, v) \<leftarrow> r. c \<noteq> key]);
            joined = (\<lambda>l.
              (case [r \<leftarrow> rows right. map_of r key = map_of l key] of
                 [] \<Rightarrow> [lrow l @ map (\<lambda>c. (rname c, NaN)) rcols]
               | m # ms \<Rightarrow> map (\<lambda>r. lrow l @ rrow r) (m # ms)))
        in Inr \<lparr>columns = map lname (columns left) @ map rname rcols,
                rows = concat (map joined (rows left))\<rparr>)"

text \<open>
  The last three statements of \<^verbatim>\<open>draw_plots\<close>, with \<open>response\<close> the frame returned by
  \<^verbatim>\<open>parse_plots_notebook\<close>.
\<close>

definition draw_plots_merge :: "dataframe \<Rightarrow> dataframe \<Rightarrow> py_error + dataframe" where
  "draw_plots_merge dataset response =
     (case index_drop (intersection (columns dataset) (columns response)) ''id'' of
        Inl e \<Rightarrow> Inl e
      | Inr common_cols \<Rightarrow>
          (case drop_columns dataset common_cols of
             Inl e \<Rightarrow> Inl e
           | Inr dataset' \<Rightarrow> merge_left dataset' response ''id''))"

section \<open>Notions used to state the properties\<close>

subsection \<open>Notions used to state the properties of extraction\<close>

text \<open>
  A cell is marked when it is a code cell whose source, after its leading newlines, starts
  with the id marker; \<open>marker_id\<close> is the id read from its first line. \<open>png_images\<close> is
  the list of the \<^verbatim>\<open>image/png\<close> payloads of the \<^verbatim>\<open>display_data\<close> outputs, in order;
  \<open>last_error\<close> is the text of the last error record, empty when there is none.
  The notebooks that follow are concrete instances.
\<close>

definition is_digit :: "char \<Rightarrow> bool" where
  "is_digit c = (digit_val c \<noteq> None \<and> c \<noteq> CHR ''_'')"

definition marked :: "cell \<Rightarrow> bool" where
  "marked c = (cell_type c = ''code'' \<and> startswith (lstrip [CHR 0x0A] (source c)) ''# id = '')"

definition marker_id :: "cell \<Rightarrow> int option" where
  "marker_id c = py_int (lstrip ''# id = '' (hd (split (CHR 0x0A) (lstrip [CHR 0x0A] (source c)))))"

definition png_images :: "nb_output list \<Rightarrow> string list" where
  "png_images outs =
     List.map_filter (\<lambda>out. if output_type out = ''display_data''
                            then map_of (data out) ''image/png'' else None) outs"

definition error_records :: "nb_output list \<Rightarrow> nb_output list" where
  "error_records outs = filter (\<lambda>out. output_type out = ''error'') outs"

definition error_text :: "nb_output \<Rightarrow> string" where
  "error_text out = ename out @ '': '' @ evalue out"

definition last_error :: "nb_output list \<Rightarrow> string" where
  "last_error outs = (case error_records outs of [] \<Rightarrow> [] | e # es \<Rightarrow> error_text (last (e # es)))"

definition outcome_of :: "cell \<Rightarrow> int \<Rightarrow> cell_res" where
  "outcome_of c idx =
     \<lparr>res_id = idx, error = last_error (outputs c), plots_generated = png_images (outputs c),
      has_plot = (png_images (outputs c) \<noteq> [])\<rparr>"

definition err_out :: "string \<Rightarrow> string \<Rightarrow> nb_output" where
  "err_out n v = \<lparr>output_type = ''error'', ename = n, evalue = v, data = []\<rparr>"

definition png_out :: "string \<Rightarrow> nb_output" where
  "png_out img = \<lparr>output_type = ''display_data'', ename = [], evalue = [],
                  data = [(''text/plain'', ''<Figure>''), (''image/png'', img)]\<rparr>"

definition stream_out :: nb_output where
  "stream_out = \<lparr>output_type = ''stream'', ename = [], evalue = [], data = []\<rparr>"

definition two_errors_nb :: notebook where
  "two_errors_nb =
     \<lparr>cells = [\<lparr>cell_type = ''code'', source = ''# id = 8'' @ [CHR 0x0A] @ ''1/0'',
                outputs = [err_out ''NameError'' ''first'', png_out ''iVBOR'',
                           err_out ''ZeroDivisionError'' ''second'']\<rparr>]\<rparr>"

definition example_nb :: notebook where
  "example_nb =
     \<lparr>cells = [\<lparr>cell_type = ''code'', source = ''# Setup'', outputs = [stream_out]\<rparr>,
               \<lparr>cell_type = ''markdown'', source = ''# id = 3'', outputs = []\<rparr>,
               \<lparr>cell_type = ''code'', source = ''# id = 7'' @ [CHR 0x0A] @ ''df.plot()'',
                outputs = [stream_out, png_out ''AAAA'', png_out ''BBBB'']\<rparr>,
               \<lparr>cell_type = ''code'', source = ''# id = 8'' @ [CHR 0x0A] @ ''1/0'',
                outputs = [err_out ''ZeroDivisionError'' ''division by zero'']\<rparr>]\<rparr>"

subsection \<open>Notions used to state the properties of \<^verbatim>\<open>add_index_to_filename\<close>\<close>

text \<open>
  \<open>versioned_base folder filename postfix\<close> is the path \<^verbatim>\<open>results_file_base\<close> of the
  source, and \<open>indexed base i\<close> the candidate with the suffix \<^verbatim>\<open>_i\<close> put between the
  stem and the extension.
\<close>

definition versioned_base :: "string \<Rightarrow> string \<Rightarrow> string \<Rightarrow> path" where
  "versioned_base folder filename postfix =
     \<lparr>parent = folder, name = stem filename @ postfix @ suffix_of filename\<rparr>"

definition indexed :: "path \<Rightarrow> nat \<Rightarrow> path" where
  "indexed base i = base\<lparr>name := stem (name base) @ ''_'' @ str_nat i @ suffix_of (name base)\<rparr>"

definition run_fs :: filesystem where
  "run_fs = [\<lparr>parent = ''out'', name = ''plots_0.ipynb''\<rparr>,
             \<lparr>parent = ''out'', name = ''plots_1.ipynb''\<rparr>,
             \<lparr>parent = ''out'', name = ''plots_3.ipynb''\<rparr>]"

subsection \<open>Notions used to state the properties of the code assembler\<close>

text \<open>
  The data file of an item, the error raised when it is missing, and the parts of an
  assembled snippet as the specification names them: the id marker, the library setup
  lines, the data-loading and generated code, and the teardown lines, which end with the
  reset of the namespace.
\<close>

definition item_csv :: "string \<Rightarrow> item \<Rightarrow> path" where
  "item_csv folder item = path_div folder (''data-'' @ str_int (item_id item) @ ''.csv'')"

definition not_found :: "path \<Rightarrow> py_error" where
  "not_found p = FileNotFoundError (''Unpacked csv datafile not found on '' @ posix_str p)"

definition id_marker :: "item \<Rightarrow> string" where
  "id_marker item = ''# id = '' @ str_int (item_id item)"

definition setup_lines :: "string \<Rightarrow> string list" where
  "setup_lines lib =
     (if contains lib ''matplotlib'' \<or> contains lib ''seaborn'' then [''%matplotlib inline''] else []) @
     (if contains lib ''plotly''
      then [''import plotly.io as pio'', ''pio.renderers.default = '' @ [CHR 0x22] @ ''png'' @ [CHR 0x22]]
      else [])"

definition main_code :: "string \<Rightarrow> item \<Rightarrow> string list" where
  "main_code folder item =
     [replace (code_data item) ''data.csv'' (posix_str (item_csv folder item)), code item]"

definition teardown_lines :: "string \<Rightarrow> string list" where
  "teardown_lines lib =
     (if contains lib ''matplotlib'' \<or> contains lib ''seaborn''
      then [''plt.rcParams.update(plt.rcParamsDefault)''] else []) @
     (if contains lib ''seaborn'' then [''sns.reset_orig()''] else []) @
     [''%reset -f'']"

definition example_fs :: filesystem where
  "example_fs = [\<lparr>parent = ''csv'', name = ''data-7.csv''\<rparr>, \<lparr>parent = ''csv'', name = ''data-8.csv''\<rparr>]"

definition example_self :: vis_generator where
  "example_self = \<lparr>output_folder = ''out'',
                    plots_nb_path = path_div ''out'' ''all_plots.ipynb'',
                    config = Some \<lparr>plotting_lib = ''Seaborn lets-plot''\<rparr>,
                    csv_folder = ''csv''\<rparr>"

definition item7 :: item where
  "item7 = \<lparr>item_id = 7, code_data = ''df = pd.read_csv(data.csv)'', code = ''df.plot()''\<rparr>"

definition item8 :: item where
  "item8 = \<lparr>item_id = 8, code_data = ''df = pd.read_csv(data.csv)'', code = ''1/0''\<rparr>"

definition item9 :: item where
  "item9 = \<lparr>item_id = 9, code_data = ''df = pd.read_csv(data.csv)'', code = ''df.hist()''\<rparr>"

subsection \<open>Notions used to state the properties of the notebook builder\<close>

text \<open>
  The snippet of an item, the text of the one-time setup cell, and the relation between a
  notebook and the same notebook after execution: \<^verbatim>\<open>nbconvert --execute --inplace\<close> writes
  outputs into the cells and leaves their order, types and sources as they are.
\<close>

definition snippet :: "string \<Rightarrow> item \<Rightarrow> string \<Rightarrow> string" where
  "snippet folder item lib =
     join [CHR 0x0A] (id_marker item # setup_lines lib @ main_code folder item @ teardown_lines lib)"

definition setup_block :: string where
  "setup_block =
     join [CHR 0x0A]
       [''# Setup'',
        ''!pip install lets-plot'',
        ''!jupyter nbextension install lets-plot --py --sys-prefix'',
        ''!jupyter nbextension enable lets-plot --py --sys-prefix'']"

definition setup_cells :: "string \<Rightarrow> string list" where
  "setup_cells lib = (if contains lib ''lets-plot'' then [setup_block] else [])"

definition executed :: "notebook \<Rightarrow> notebook \<Rightarrow> bool" where
  "executed nb nb' =
     list_all2 (\<lambda>c c'. cell_type c' = cell_type c \<and> source c' = source c) (cells nb) (cells nb')"

text \<open>A run of the pipeline on two items, used as a concrete instance below.\<close>

definition example_dirs :: "string list" where
  "example_dirs = [''out'']"

definition example_built :: notebook where
  "example_built =
     new_notebook (setup_block # map (\<lambda>item. snippet ''csv'' item ''seaborn lets-plot'') [item7, item8])"

definition example_run :: notebook where
  "example_run =
     \<lparr>cells = map (\<lambda>(c, outs). c\<lparr>outputs := outs\<rparr>)
                (zip (cells example_built)
                   [[stream_out], [png_out ''iVBOR''],
                    [err_out ''ZeroDivisionError'' ''division by zero'']])\<rparr>"

subsection \<open>Notions used to state the properties of the merge\<close>








text \<open>
  An item frame that carries the columns of an earlier run, and the Outcome frame of a new
  run in which the item 9 has no Outcome.
\<close>

definition example_dataset :: dataframe where
  "example_dataset =
     \<lparr>columns = [''id'', ''code'', ''error'', ''has_plot''],
      rows = [[(''id'', IntV 7), (''code'', StrV ''df.plot()''), (''error'', StrV ''stale''),
               (''has_plot'', BoolV False)],
              [(''id'', IntV 9), (''code'', StrV ''df.hist()''), (''error'', StrV ''stale''),
               (''has_plot'', BoolV False)]]\<rparr>"

definition example_response :: dataframe where
  "example_response =
     \<lparr>columns = [''id'', ''error'', ''plots_generated'', ''has_plot''],
      rows = [[(''id'', IntV 7), (''error'', StrV []), (''plots_generated'', ListV [''iVBOR'']),
               (''has_plot'', BoolV True)]]\<rparr>"

section \<open>Properties\<close>

subsection \<open>Decimal numerals, lines and the extraction loop\<close>

lemma digit_val_digit_char: "d < 10 \<Longrightarrow> digit_val (digit_char d) = Some d"
  by (simp add: digit_val_def digit_char_def)

lemma of_char_digit_char: "d < 10 \<Longrightarrow> (of_char (digit_char d) :: nat) = 48 + d"
  by (simp add: digit_char_def)

lemma digit_char_neq:
  assumes "d < 10" and "(of_char c :: nat) < 48 \<or> 57 < (of_char c :: nat)"
  shows "digit_char d \<noteq> c"
proof
  assume "digit_char d = c"
  then have "(of_char c :: nat) = 48 + d" using of_char_digit_char[OF assms(1)] by simp
  with assms show False by auto
qed

lemma digit_char_neq_underscore: "d < 10 \<Longrightarrow> digit_char d \<noteq> CHR ''_''"
  by (rule digit_char_neq) simp_all

lemma is_digit_digit_char: "d < 10 \<Longrightarrow> is_digit (digit_char d)"
  by (simp add: is_digit_def digit_val_digit_char digit_char_neq_underscore)

lemma more_digits_append:
  "list_all is_digit ds \<Longrightarrow>
   more_digits acc ds = Some (foldl (\<lambda>a c. 10 * a + the (digit_val c)) acc ds)"
proof (induction acc ds rule: more_digits.induct)
  case (1 acc) show ?case by simp
next
  case (2 acc c) then show ?case by (auto simp: is_digit_def)
next
  case (3 acc c d rest) then show ?case by (auto simp: is_digit_def)
qed

lemma str_nat_digits: "list_all is_digit (str_nat n)"
proof (induction n rule: str_nat.induct)
  case (1 n)
  show ?case
  proof (cases "n < 10")
    case True then show ?thesis by (subst str_nat.simps) (simp add: is_digit_digit_char)
  next
    case False
    with 1 show ?thesis by (subst str_nat.simps) (simp add: is_digit_digit_char)
  qed
qed

lemma str_nat_value: "foldl (\<lambda>a c. 10 * a + the (digit_val c)) 0 (str_nat n) = n"
proof (induction n rule: str_nat.induct)
  case (1 n)
  show ?case
  proof (cases "n < 10")
    case True then show ?thesis by (subst str_nat.simps) (simp add: digit_val_digit_char)
  next
    case False
    with 1 show ?thesis by (subst str_nat.simps) (simp add: digit_val_digit_char)
  qed
qed

lemma str_nat_nonempty: "str_nat n \<noteq> []"
  by (subst str_nat.simps) simp

lemma digits_str_nat: "digits (str_nat n) = Some n"
proof -
  obtain c rest where cr: "str_nat n = c # rest"
    using str_nat_nonempty by (cases "str_nat n") auto
  have all: "list_all is_digit (c # rest)" using str_nat_digits[of n] cr by simp
  then obtain v where v: "digit_val c = Some v" by (auto simp: is_digit_def)
  have "foldl (\<lambda>a c. 10 * a + the (digit_val c)) 0 (c # rest) = n"
    using str_nat_value[of n] cr by simp
  then have "foldl (\<lambda>a c. 10 * a + the (digit_val c)) v rest = n" using v by simp
  moreover have "more_digits v rest = Some (foldl (\<lambda>a c. 10 * a + the (digit_val c)) v rest)"
    using all by (intro more_digits_append) simp
  ultimately show ?thesis by (simp add: digits_def cr v)
qed


lemma not_isspace_digit_char: "d < 10 \<Longrightarrow> \<not> isspace (digit_char d)"
  by (simp add: isspace_def of_char_digit_char)

lemma is_digit_not_space: "is_digit c \<Longrightarrow> \<not> isspace c"
  by (auto simp: is_digit_def digit_val_def isspace_def split: if_splits)

lemma strip_space_id:
  assumes "s \<noteq> []" "\<not> isspace (hd s)" "\<not> isspace (last s)"
  shows "strip_space s = s"
proof -
  have a: "dropWhile isspace s = s" using assms(1,2) by (cases s) auto
  have "rev s \<noteq> []" "\<not> isspace (hd (rev s))" using assms(1,3) by (simp_all add: hd_rev)
  then have b: "dropWhile isspace (rev s) = rev s" by (cases "rev s") auto
  show ?thesis by (simp add: strip_space_def a b)
qed

lemma str_nat_hd_last: "is_digit (hd (str_nat n)) \<and> is_digit (last (str_nat n))"
  using str_nat_digits[of n] str_nat_nonempty[of n]
  by (cases "str_nat n") (auto simp: list_all_iff)

lemma py_int_str_int: "py_int (str_int n) = Some n"
proof (cases "n < 0")
  case True
  have ne: "str_int n = CHR ''-'' # str_nat (nat (- n))" using True by (simp add: str_int_def)
  have "last (str_int n) = last (str_nat (nat (- n)))" using ne str_nat_nonempty by simp
  then have "\<not> isspace (last (str_int n))" using str_nat_hd_last is_digit_not_space by simp
  moreover have "\<not> isspace (hd (str_int n))" by (simp add: ne isspace_def)
  ultimately have "strip_space (str_int n) = str_int n" by (intro strip_space_id) (simp_all add: ne)
  then show ?thesis using True by (simp add: py_int_def ne digits_str_nat)
next
  case False
  have ne: "str_int n = str_nat (nat n)" using False by (simp add: str_int_def)
  obtain c rest where cr: "str_nat (nat n) = c # rest"
    using str_nat_nonempty by (cases "str_nat (nat n)") auto
  have dc: "is_digit c" using str_nat_hd_last[of "nat n"] cr by simp
  have "strip_space (str_int n) = str_int n"
    using str_nat_hd_last[of "nat n"] is_digit_not_space str_nat_nonempty
    by (intro strip_space_id) (simp_all add: ne)
  moreover have "c \<noteq> CHR ''-''" "c \<noteq> CHR ''+''"
    using dc by (auto simp: is_digit_def digit_val_def)
  moreover have "digits (c # rest) = Some (nat n)" using digits_str_nat[of "nat n"] cr by simp
  ultimately show ?thesis using False by (simp add: py_int_def ne cr)
qed

lemma str_int_nonempty: "str_int n \<noteq> []"
  by (simp add: str_int_def str_nat_nonempty)

lemma str_int_chars: "c \<in> set (str_int n) \<Longrightarrow> is_digit c \<or> c = CHR ''-''"
  using str_nat_digits by (auto simp: str_int_def list_all_iff split: if_splits)

lemma is_digit_cases: "is_digit c \<Longrightarrow> 48 \<le> (of_char c :: nat) \<and> (of_char c :: nat) \<le> 57"
  by (auto simp: is_digit_def digit_val_def split: if_splits)

lemma str_int_no_newline: "CHR 0x0A \<notin> set (str_int n)"
  using str_int_chars[of "CHR 0x0A" n] is_digit_cases[of "CHR 0x0A"] by auto

lemma str_int_hd_not_marker: "hd (str_int n) \<notin> set ''# id = ''"
proof -
  have "hd (str_int n) \<in> set (str_int n)" using str_int_nonempty by simp
  then have "is_digit (hd (str_int n)) \<or> hd (str_int n) = CHR ''-''" by (rule str_int_chars)
  then show ?thesis using is_digit_cases[of "hd (str_int n)"] by auto
qed

lemma lstrip_marker: "lstrip ''# id = '' (''# id = '' @ str_int n) = str_int n"
proof -
  have "dropWhile (\<lambda>c. c \<in> set ''# id = '') (str_int n) = str_int n"
    using str_int_hd_not_marker[of n] str_int_nonempty[of n] by (cases "str_int n") auto
  then show ?thesis by (simp add: lstrip_def)
qed

lemma split_nonempty: "split sep s \<noteq> []"
  by (induction s) (auto split: list.splits)

lemma hd_split_no_sep: "sep \<notin> set b \<Longrightarrow> hd (split sep b) = b"
proof (induction b)
  case Nil show ?case by simp
next
  case (Cons c b)
  then show ?case using split_nonempty[of sep b] by (cases "split sep b") auto
qed

lemma hd_split_append: "sep \<notin> set b \<Longrightarrow> hd (split sep (b @ sep # rest)) = b"
proof (induction b)
  case Nil show ?case by simp
next
  case (Cons c b)
  then show ?case using split_nonempty[of sep "b @ sep # rest"]
    by (cases "split sep (b @ sep # rest)") auto
qed

lemma hd_split_join: "sep \<notin> set b \<Longrightarrow> hd (split sep (join [sep] (b # bs))) = b"
  by (cases bs) (simp_all add: hd_split_no_sep hd_split_append)

lemma lstrip_replicate: "lstrip [c] (replicate k c @ s) = lstrip [c] s"
  by (induction k) (simp_all add: lstrip_def)

lemma scan_outputs_images:
  "snd (scan_outputs outs (err, images)) = images @ png_images outs"
  by (induction outs arbitrary: err images)
     (auto simp: png_images_def List.map_filter_simps split: option.splits)

lemma scan_outputs_error:
  "fst (scan_outputs outs (err, images)) =
     (if error_records outs = [] then err else error_text (last (error_records outs)))"
  by (induction outs arbitrary: err images)
     (auto simp: error_records_def error_text_def split: option.splits)

lemma scan_outputs_eq:
  "scan_outputs outs ([], []) = (last_error outs, png_images outs)"
proof -
  have "fst (scan_outputs outs ([], [])) = last_error outs"
    by (simp add: scan_outputs_error last_error_def split: list.splits)
  moreover have "snd (scan_outputs outs ([], [])) = png_images outs"
    by (simp add: scan_outputs_images)
  ultimately show ?thesis by (metis prod.collapse)
qed

lemma parse_cells_Inr:
  "parse_cells cs acc = Inr rs \<longleftrightarrow>
     (\<forall>c \<in> set (filter marked cs). marker_id c \<noteq> None) \<and>
     rs = acc @ map (\<lambda>c. outcome_of c (the (marker_id c))) (filter marked cs)"
proof (induction cs arbitrary: acc)
  case Nil show ?case by auto
next
  case (Cons c cs)
  show ?case
  proof (cases "marked c")
    case False
    then show ?thesis using Cons.IH[of acc] by (auto simp: marked_def Let_def)
  next
    case True
    show ?thesis
    proof (cases "marker_id c")
      case None
      then show ?thesis using True by (auto simp: marked_def marker_id_def Let_def)
    next
      case (Some idx)
      then show ?thesis using True Cons.IH[of "acc @ [outcome_of c idx]"]
        by (auto simp: marked_def marker_id_def Let_def scan_outputs_eq outcome_of_def)
    qed
  qed
qed

lemma parse_cells_Inl: "parse_cells cs acc = Inl e \<Longrightarrow> e = ValueError"
  by (induction cs arbitrary: acc) (auto simp: Let_def split: if_splits option.splits prod.splits)

lemmas eval_defs = parse_plots_notebook_def Let_def lstrip_def startswith_def py_int_def
  strip_space_def isspace_def digits_def digit_val_def err_out_def png_out_def stream_out_def

text \<open>
  Claim C2 as stated (the first error record of a sub-unit wins) fails: the loop over the
  outputs assigns \<^verbatim>\<open>cell_res["error"]\<close> at every error record, so a later record
  overwrites an earlier one. In \<open>two_errors_nb\<close> the first error record is
  \<^verbatim>\<open>NameError: first\<close> and the Outcome carries \<^verbatim>\<open>ZeroDivisionError: second\<close>.
\<close>

theorem first_error_wins_counterexample:
  "parse_plots_notebook two_errors_nb =
     Inr [\<lparr>res_id = 8, error = ''ZeroDivisionError: second'', plots_generated = [''iVBOR''],
           has_plot = True\<rparr>] \<and>
   error_text (hd (error_records (outputs (hd (cells two_errors_nb))))) = ''NameError: first'' \<and>
   ''ZeroDivisionError: second'' \<noteq> ''NameError: first''"
  by (simp add: two_errors_nb_def eval_defs error_text_def error_records_def)

text \<open>
  Claim C2, amended: for every marked sub-unit, the \<open>error\<close> field of its Outcome is
  \<^verbatim>\<open><ename>: <evalue>\<close> of the last error record in output order, however many error
  records precede it, and the empty string when there is none.
\<close>

theorem last_error_wins:
  assumes "parse_plots_notebook nb = Inr results"
  shows "list_all2 (\<lambda>c r. error r = (if error_records (outputs c) = [] then []
                                     else error_text (last (error_records (outputs c)))))
           (filter marked (cells nb)) results"
proof -
  have "results = map (\<lambda>c. outcome_of c (the (marker_id c))) (filter marked (cells nb))"
    using assms by (simp add: parse_plots_notebook_def parse_cells_Inr)
  then show ?thesis
    by (simp add: list_all2_map2 list_all2_same outcome_of_def last_error_def split: list.splits)
qed

theorem last_error_wins_witness:
  "parse_plots_notebook two_errors_nb =
     Inr [\<lparr>res_id = 8, error = ''ZeroDivisionError: second'', plots_generated = [''iVBOR''],
           has_plot = True\<rparr>] \<and>
   list_all2 (\<lambda>c r. error r = (if error_records (outputs c) = [] then []
                                     else error_text (last (error_records (outputs c)))))
     (filter marked (cells two_errors_nb))
     [\<lparr>res_id = 8, error = ''ZeroDivisionError: second'', plots_generated = [''iVBOR''],
           has_plot = True\<rparr>]"
proof -
  have h: "parse_plots_notebook two_errors_nb =
     Inr [\<lparr>res_id = 8, error = ''ZeroDivisionError: second'', plots_generated = [''iVBOR''],
           has_plot = True\<rparr>]"
    by (simp add: two_errors_nb_def eval_defs)
  show ?thesis using h last_error_wins[OF h] by simp
qed

text \<open>
  Claim C3: for every marked sub-unit, \<open>plots_generated\<close> of its Outcome is the list of
  the \<^verbatim>\<open>image/png\<close> payloads of its \<^verbatim>\<open>display_data\<close> outputs, one entry per such output
  and in emission order, and \<open>has_plot\<close> holds exactly when that list is not empty.
\<close>

theorem plots_generated_in_emission_order:
  assumes "parse_plots_notebook nb = Inr results"
  shows "list_all2 (\<lambda>c r. plots_generated r = png_images (outputs c) \<and>
                           has_plot r = (plots_generated r \<noteq> []))
           (filter marked (cells nb)) results"
proof -
  have "results = map (\<lambda>c. outcome_of c (the (marker_id c))) (filter marked (cells nb))"
    using assms by (simp add: parse_plots_notebook_def parse_cells_Inr)
  then show ?thesis
    by (simp add: list_all2_map2 list_all2_same outcome_of_def)
qed

theorem plots_generated_in_emission_order_witness:
  "parse_plots_notebook example_nb =
     Inr [\<lparr>res_id = 7, error = [], plots_generated = [''AAAA'', ''BBBB''], has_plot = True\<rparr>,
          \<lparr>res_id = 8, error = ''ZeroDivisionError: division by zero'', plots_generated = [],
           has_plot = False\<rparr>] \<and>
   list_all2 (\<lambda>c r. plots_generated r = png_images (outputs c) \<and>
                           has_plot r = (plots_generated r \<noteq> []))
     (filter marked (cells example_nb))
     [\<lparr>res_id = 7, error = [], plots_generated = [''AAAA'', ''BBBB''], has_plot = True\<rparr>,
      \<lparr>res_id = 8, error = ''ZeroDivisionError: division by zero'', plots_generated = [],
       has_plot = False\<rparr>]"
proof -
  have h: "parse_plots_notebook example_nb =
     Inr [\<lparr>res_id = 7, error = [], plots_generated = [''AAAA'', ''BBBB''], has_plot = True\<rparr>,
          \<lparr>res_id = 8, error = ''ZeroDivisionError: division by zero'', plots_generated = [],
           has_plot = False\<rparr>]"
    by (simp add: example_nb_def eval_defs)
  show ?thesis using h plots_generated_in_emission_order[OF h] by simp
qed

text \<open>
  Claim C10: leading newline characters are stripped before the marker test. A code cell
  whose source is any number \<open>k\<close> of newlines followed by the marker line
  \<^verbatim>\<open># id = <n>\<close> (and any further lines) is recognised: the loop appends its Outcome,
  with the id \<open>n\<close>, and goes on with the remaining cells.
\<close>

theorem leading_newlines_stripped:
  "parse_cells
     (\<lparr>cell_type = ''code'',
       source = replicate k (CHR 0x0A) @ join [CHR 0x0A] ((''# id = '' @ str_int n) # blocks),
       outputs = outs\<rparr> # rest) acc =
   parse_cells rest
     (acc @ [\<lparr>res_id = n, error = last_error outs, plots_generated = png_images outs,
              has_plot = (png_images outs \<noteq> [])\<rparr>])"
proof -
  let ?marker = "''# id = '' @ str_int n"
  let ?body = "join [CHR 0x0A] (?marker # blocks)"
  have nl: "CHR 0x0A \<notin> set ?marker" using str_int_no_newline[of n] by simp
  have pre: "prefix ''# id = '' ?body" by (cases blocks) simp_all
  have "\<exists>t. ?body = CHR ''#'' # t" by (cases blocks) simp_all
  then obtain t where t: "?body = CHR ''#'' # t" by blast
  have ls0: "lstrip [CHR 0x0A] ?body = ?body"
    by (simp only: t) (simp add: lstrip_def)
  have ls: "lstrip [CHR 0x0A] (replicate k (CHR 0x0A) @ ?body) = ?body"
    by (simp only: lstrip_replicate ls0)
  have hd: "hd (split (CHR 0x0A) ?body) = ?marker" using nl by (rule hd_split_join)
  have idx: "py_int (lstrip ''# id = '' ?marker) = Some n"
    by (simp only: lstrip_marker py_int_str_int)
  show ?thesis
    apply (subst parse_cells.simps)
    apply (simp only: cell.simps ls Let_def startswith_def pre hd idx scan_outputs_eq)
    apply simp
    done
qed

lemma blank_led_source:
  "replicate 2 (CHR 0x0A) @ join [CHR 0x0A] ((''# id = '' @ str_int 5) # [''df.plot()'']) =
   [CHR 0x0A, CHR 0x0A] @ ''# id = 5'' @ [CHR 0x0A] @ ''df.plot()''"
  by code_simp

theorem leading_newlines_stripped_witness:
  "parse_cells
     [\<lparr>cell_type = ''code'',
       source = [CHR 0x0A, CHR 0x0A] @ ''# id = 5'' @ [CHR 0x0A] @ ''df.plot()'',
       outputs = [png_out ''iVBOR'']\<rparr>] [] =
   Inr [\<lparr>res_id = 5, error = [], plots_generated = [''iVBOR''], has_plot = True\<rparr>]"
proof -
  have o: "last_error [png_out ''iVBOR''] = [] \<and> png_images [png_out ''iVBOR''] = [''iVBOR'']"
    by code_simp
  show ?thesis
    using leading_newlines_stripped[of 2 5 "[''df.plot()'']" "[png_out ''iVBOR'']" "[]" "[]"]
    unfolding blank_led_source by (simp add: o)
qed

subsection \<open>File versioning\<close>

lemma str_nat_inj: "str_nat i = str_nat j \<Longrightarrow> i = j"
  using digits_str_nat[of i] digits_str_nat[of j] by (metis option.inject)

lemma stem_suffix: "stem nm @ suffix_of nm = nm"
  by (simp add: stem_def suffix_of_def split: option.splits)

lemma set_stem: "set (stem nm) \<subseteq> set nm"
  by (auto simp: stem_def split: option.splits if_splits dest: in_set_takeD)

lemma set_suffix_of: "set (suffix_of nm) \<subseteq> set nm"
  by (auto simp: suffix_of_def split: option.splits if_splits dest: in_set_dropD)

lemma stem_nonempty: "nm \<noteq> [] \<Longrightarrow> stem nm \<noteq> []"
  by (auto simp: stem_def split: option.splits)

lemma name_indexed:
  "name (indexed base k) = stem (name base) @ ''_'' @ str_nat k @ suffix_of (name base)"
  by (simp add: indexed_def)

lemma indexed_inj: "indexed base i = indexed base j \<Longrightarrow> i = j"
proof -
  assume "indexed base i = indexed base j"
  then have "name (indexed base i) = name (indexed base j)" by (rule arg_cong)
  then have "str_nat i = str_nat j"
    unfolding name_indexed by (metis same_append_eq append_same_eq)
  then show "i = j" by (rule str_nat_inj)
qed

lemma slash_not_digit: "CHR ''/'' \<notin> set (str_nat i)"
proof
  assume "CHR ''/'' \<in> set (str_nat i)"
  then have "is_digit (CHR ''/'')" using str_nat_digits[of i] by (simp add: list_all_iff)
  then have "48 \<le> (of_char (CHR ''/'') :: nat)" using is_digit_cases by blast
  then show False by simp
qed

lemma with_stem_indexed:
  assumes "name base \<noteq> []" "CHR ''/'' \<notin> set (name base)"
  shows "with_stem base (stem (name base) @ CHR ''_'' # str_nat i) = Inr (indexed base i)"
proof -
  let ?nm = "stem (name base) @ ''_'' @ str_nat i @ suffix_of (name base)"
  have a: "CHR ''/'' \<notin> set ?nm"
    using assms(2) set_stem[of "name base"] set_suffix_of[of "name base"] slash_not_digit[of i]
    by auto
  have b: "?nm \<noteq> ''.''"
  proof
    assume e: "?nm = ''.''"
    have "CHR ''_'' \<in> set ?nm" by simp
    then have "CHR ''_'' \<in> set ''.''" unfolding e .
    then show False by simp
  qed
  show ?thesis using assms(1) a b by (simp add: with_stem_def with_name_def indexed_def)
qed

lemma str_nat_0: "str_nat 0 = ''0''"
proof -
  have "char_of (48::nat) = CHR ''0''" by code_simp
  then show ?thesis by (simp add: str_nat.simps[of 0] digit_char_def)
qed

lemma probe_loop_finds:
  assumes nm: "name base \<noteq> []" "CHR ''/'' \<notin> set (name base)"
  shows "i \<le> k \<Longrightarrow> (\<forall>j. i \<le> j \<and> j < k \<longrightarrow> path_exists fs (indexed base j)) \<Longrightarrow>
         \<not> path_exists fs (indexed base k) \<Longrightarrow>
         probe_loop fs base (indexed base i) i last_file =
           Some (Inr (indexed base k, if k = i then last_file else Some (indexed base (k - 1))))"
proof (induction "k - i" arbitrary: i last_file)
  case 0
  then have "k = i" by simp
  then show ?case using 0 by (subst probe_loop.simps) simp
next
  case (Suc d)
  then have lt: "i < k" by simp
  then have ex: "path_exists fs (indexed base i)" using Suc.prems by simp
  have step: "probe_loop fs base (indexed base (i + 1)) (i + 1) (Some (indexed base i)) =
      Some (Inr (indexed base k, if k = i + 1 then Some (indexed base i)
                                  else Some (indexed base (k - 1))))"
    using Suc.hyps(2) Suc.prems lt by (intro Suc.hyps(1)) auto
  have "(if k = i + 1 then Some (indexed base i) else Some (indexed base (k - 1))) =
        Some (indexed base (k - 1))" by auto
  with step show ?case using ex lt
    by (subst probe_loop.simps) (simp add: with_stem_indexed[OF nm])
qed

lemma first_unused_exists:
  "\<exists>k. \<not> path_exists fs (indexed base k) \<and> (\<forall>j<k. path_exists fs (indexed base j))"
proof -
  have inj: "inj (indexed base)" by (rule injI) (rule indexed_inj)
  have "\<not> range (indexed base) \<subseteq> set fs"
  proof
    assume "range (indexed base) \<subseteq> set fs"
    then have "finite (range (indexed base))" by (rule finite_subset) simp
    then have "finite (UNIV :: nat set)" using inj by (rule finite_imageD)
    then show False by simp
  qed
  then obtain m where m: "\<not> path_exists fs (indexed base m)" by (auto simp: path_exists_def)
  define k where "k = (LEAST m. \<not> path_exists fs (indexed base m))"
  have "\<not> path_exists fs (indexed base k)" unfolding k_def using m by (rule LeastI)
  moreover have "\<forall>j<k. path_exists fs (indexed base j)"
    unfolding k_def using not_less_Least by blast
  ultimately show ?thesis by blast
qed

text \<open>
  Claim C4: for a base filename that is one path component, \<open>add_index_to_filename\<close>
  returns; the path it returns carries the first index, counted from 0, whose file does
  not exist, so the returned path never refers to an existing file and every smaller
  index does; when the files \<^verbatim>\<open>_0 .. _m\<close> exist and \<^verbatim>\<open>_(m+1)\<close> does not, the index chosen is
  \<open>m + 1\<close>, and it is 0 when \<^verbatim>\<open>_0\<close> does not exist. The second component is the last
  existing file that was probed.
\<close>

theorem add_index_first_unused:
  assumes "filename \<noteq> []" and "filename \<noteq> ''.''" and "CHR ''/'' \<notin> set filename"
    and "CHR ''/'' \<notin> set postfix"
  shows "\<exists>k. add_index_to_filename fs folder filename postfix =
               Some (Inr (indexed (versioned_base folder filename postfix) k,
                          if k = 0 then None
                          else Some (indexed (versioned_base folder filename postfix) (k - 1)))) \<and>
             \<not> path_exists fs (indexed (versioned_base folder filename postfix) k) \<and>
             (\<forall>j<k. path_exists fs (indexed (versioned_base folder filename postfix) j)) \<and>
             (\<forall>m. (\<forall>j\<le>m. path_exists fs (indexed (versioned_base folder filename postfix) j)) \<and>
                  \<not> path_exists fs (indexed (versioned_base folder filename postfix) (m + 1))
                  \<longrightarrow> k = m + 1)"
proof -
  let ?base = "versioned_base folder filename postfix"
  have nm: "name ?base \<noteq> []" using assms(1) stem_nonempty by (simp add: versioned_base_def)
  have sl: "CHR ''/'' \<notin> set (name ?base)"
    using assms(3,4) set_stem[of filename] set_suffix_of[of filename]
    by (auto simp: versioned_base_def)
  have dot: "name ?base \<noteq> ''.''"
  proof (cases "postfix = []")
    case True
    then show ?thesis using stem_suffix[of filename] assms(2) by (simp add: versioned_base_def)
  next
    case False
    then have "2 \<le> length (name ?base)"
      using stem_nonempty[OF assms(1)]
      by (cases "stem filename"; cases postfix) (simp_all add: versioned_base_def)
    then show ?thesis by auto
  qed
  have first: "with_stem (path_div folder filename) (stem filename @ postfix) = Inr ?base"
    using assms(1) nm sl dot by (simp add: with_stem_def with_name_def path_div_def versioned_base_def)
  have second: "with_stem ?base (stem (name ?base) @ ''_0'') = Inr (indexed ?base 0)"
    using with_stem_indexed[OF nm sl, of 0] by (simp add: str_nat_0)
  obtain k where k: "\<not> path_exists fs (indexed ?base k)" "\<forall>j<k. path_exists fs (indexed ?base j)"
    using first_unused_exists by blast
  have "probe_loop fs ?base (indexed ?base 0) 0 None =
          Some (Inr (indexed ?base k, if k = 0 then None else Some (indexed ?base (k - 1))))"
    using k by (intro probe_loop_finds[OF nm sl]) auto
  then have res: "add_index_to_filename fs folder filename postfix =
          Some (Inr (indexed ?base k, if k = 0 then None else Some (indexed ?base (k - 1))))"
    by (simp add: add_index_to_filename_def first second)
  have gap: "\<forall>m. (\<forall>j\<le>m. path_exists fs (indexed ?base j)) \<and>
                  \<not> path_exists fs (indexed ?base (m + 1)) \<longrightarrow> k = m + 1"
  proof (intro allI impI)
    fix m assume h: "(\<forall>j\<le>m. path_exists fs (indexed ?base j)) \<and>
                  \<not> path_exists fs (indexed ?base (m + 1))"
    have "\<not> k \<le> m" using h k(1) by blast
    moreover have "\<not> m + 1 < k" using h k(2) by blast
    ultimately show "k = m + 1" by simp
  qed
  show ?thesis using res k gap by blast
qed

lemma add_index_example:
  "add_index_to_filename run_fs ''out'' ''plots.ipynb'' [] =
     Some (Inr (\<lparr>parent = ''out'', name = ''plots_2.ipynb''\<rparr>,
                Some \<lparr>parent = ''out'', name = ''plots_1.ipynb''\<rparr>))"
  apply code_simp
  apply (subst probe_loop.simps, code_simp)
  apply (subst probe_loop.simps, code_simp)
  apply (subst probe_loop.simps, code_simp)
  done

theorem add_index_first_unused_witness:
  "''plots.ipynb'' \<noteq> [] \<and> ''plots.ipynb'' \<noteq> ''.'' \<and> CHR ''/'' \<notin> set ''plots.ipynb'' \<and>
   CHR ''/'' \<notin> set [] \<and>
   (\<exists>k. add_index_to_filename run_fs ''out'' ''plots.ipynb'' [] =
               Some (Inr (indexed (versioned_base ''out'' ''plots.ipynb'' []) k,
                          if k = 0 then None
                          else Some (indexed (versioned_base ''out'' ''plots.ipynb'' []) (k - 1)))) \<and>
             \<not> path_exists run_fs (indexed (versioned_base ''out'' ''plots.ipynb'' []) k) \<and>
             (\<forall>j<k. path_exists run_fs (indexed (versioned_base ''out'' ''plots.ipynb'' []) j)) \<and>
             (\<forall>m. (\<forall>j\<le>m. path_exists run_fs (indexed (versioned_base ''out'' ''plots.ipynb'' []) j)) \<and>
                  \<not> path_exists run_fs (indexed (versioned_base ''out'' ''plots.ipynb'' []) (m + 1))
                  \<longrightarrow> k = m + 1))"
proof -
  have h1: "''plots.ipynb'' \<noteq> []" by simp
  have h2: "''plots.ipynb'' \<noteq> ''.''" by simp
  have h3: "CHR ''/'' \<notin> set ''plots.ipynb''" by simp
  have h4: "CHR ''/'' \<notin> set []" by simp
  show ?thesis
    using h1 h2 h3 h4 add_index_first_unused[OF h1 h2 h3 h4, of run_fs "''out''"] by blast
qed

subsection \<open>The code assembler and the data-file check\<close>

lemma split_append_sep: "split sep (xs @ sep # ys) = split sep xs @ split sep ys"
proof (induction xs)
  case Nil show ?case by simp
next
  case (Cons c xs)
  then show ?case using split_nonempty[of sep xs] by (cases "split sep xs") auto
qed

lemma split_no_sep: "sep \<notin> set b \<Longrightarrow> split sep b = [b]"
  by (induction b) auto

lemma last_split_append: "sep \<notin> set b \<Longrightarrow> last (split sep (pre @ sep # b)) = b"
  by (simp add: split_append_sep split_no_sep)

lemma join_snoc: "bs \<noteq> [] \<Longrightarrow> join sep (bs @ [l]) = join sep bs @ sep @ l"
proof (induction bs)
  case Nil then show ?case by simp
next
  case (Cons b bs)
  then show ?case by (cases bs) simp_all
qed

lemma join_cons: "bs \<noteq> [] \<Longrightarrow> join sep (b # bs) = b @ sep @ join sep bs"
  by (cases bs) simp_all

lemma check_csv_first_missing:
  "check_csv fs self dataset =
     (case filter (\<lambda>item. \<not> path_exists fs (item_csv (csv_folder self) item)) dataset of
        [] \<Rightarrow> Inr ()
      | item # rest \<Rightarrow> Inl (not_found (item_csv (csv_folder self) item)))"
  by (induction dataset) (simp_all add: Let_def item_csv_def not_found_def)

lemma generate_code_blocks:
  "generate_code fs self item lib =
     (if \<not> path_exists fs (item_csv (csv_folder self) item)
      then Inl (not_found (item_csv (csv_folder self) item))
      else Inr (join [CHR 0x0A]
                  (id_marker item # setup_lines lib @ main_code (csv_folder self) item @
                   teardown_lines lib)))"
  by (simp add: generate_code_def Let_def item_csv_def not_found_def id_marker_def
        setup_lines_def main_code_def teardown_lines_def)

text \<open>
  Claim C8: a missing data file \<^verbatim>\<open>data-<id>.csv\<close> raises \<^verbatim>\<open>FileNotFoundError\<close>, at two
  places. Construction (\<open>init\<close>) checks every item of the dataset: when some item's file is
  missing it fails with the error for a missing item, and it succeeds when every file
  exists, so no missing file is skipped. \<open>generate_code\<close> checks its item again and
  fails with the same error.
\<close>

theorem missing_csv_raises:
  "((\<exists>item \<in> set dataset. \<not> path_exists fs (item_csv csv_dir item)) \<longrightarrow>
      (\<exists>item \<in> set dataset. \<not> path_exists fs (item_csv csv_dir item) \<and>
         init fs out dataset csv_dir cfg = Inl (not_found (item_csv csv_dir item)))) \<and>
   ((\<forall>item \<in> set dataset. path_exists fs (item_csv csv_dir item)) \<longrightarrow>
      (\<exists>self. init fs out dataset csv_dir cfg = Inr self)) \<and>
   (\<not> path_exists fs (item_csv (csv_folder self) item) \<longrightarrow>
      generate_code fs self item lib = Inl (not_found (item_csv (csv_folder self) item)))"
proof (intro conjI impI)
  let ?missing = "filter (\<lambda>item. \<not> path_exists fs (item_csv csv_dir item)) dataset"
  assume "\<exists>item \<in> set dataset. \<not> path_exists fs (item_csv csv_dir item)"
  then have "?missing \<noteq> []" by (auto simp: filter_empty_conv)
  then obtain item rest where m: "?missing = item # rest" by (cases ?missing) auto
  then have "item \<in> set ?missing" by simp
  then have "item \<in> set dataset" "\<not> path_exists fs (item_csv csv_dir item)" by auto
  moreover have "init fs out dataset csv_dir cfg = Inl (not_found (item_csv csv_dir item))"
    by (simp add: init_def Let_def check_csv_first_missing m)
  ultimately show "\<exists>item \<in> set dataset. \<not> path_exists fs (item_csv csv_dir item) \<and>
         init fs out dataset csv_dir cfg = Inl (not_found (item_csv csv_dir item))" by blast
next
  assume "\<forall>item \<in> set dataset. path_exists fs (item_csv csv_dir item)"
  then have "filter (\<lambda>item. \<not> path_exists fs (item_csv csv_dir item)) dataset = []"
    by (auto simp: filter_empty_conv)
  then show "\<exists>self. init fs out dataset csv_dir cfg = Inr self"
    by (simp add: init_def Let_def check_csv_first_missing)
next
  assume "\<not> path_exists fs (item_csv (csv_folder self) item)"
  then show "generate_code fs self item lib = Inl (not_found (item_csv (csv_folder self) item))"
    by (simp add: generate_code_blocks)
qed

lemma example_fs_missing:
  "path_exists example_fs (item_csv ''csv'' item7) \<and>
   path_exists example_fs (item_csv ''csv'' item8) \<and>
   \<not> path_exists example_fs (item_csv ''csv'' item9)"
  by code_simp

theorem missing_csv_raises_witness:
  "(\<exists>item \<in> set [item7, item9, item8]. \<not> path_exists example_fs (item_csv ''csv'' item)) \<and>
   (\<exists>item \<in> set [item7, item9, item8]. \<not> path_exists example_fs (item_csv ''csv'' item) \<and>
      init example_fs ''out'' [item7, item9, item8] ''csv'' None =
        Inl (not_found (item_csv ''csv'' item))) \<and>
   path_exists example_fs (item_csv ''csv'' item7) \<and>
   path_exists example_fs (item_csv ''csv'' item8) \<and>
   (\<exists>self. init example_fs ''out'' [item7, item8] ''csv'' None = Inr self) \<and>
   \<not> path_exists example_fs (item_csv (csv_folder example_self) item9) \<and>
   generate_code example_fs example_self item9 ''seaborn'' =
     Inl (not_found (item_csv (csv_folder example_self) item9))"
proof -
  have a: "\<exists>item \<in> set [item7, item9, item8]. \<not> path_exists example_fs (item_csv ''csv'' item)"
    using example_fs_missing by simp
  have b: "\<forall>item \<in> set [item7, item8]. path_exists example_fs (item_csv ''csv'' item)"
    using example_fs_missing by simp
  have c: "\<not> path_exists example_fs (item_csv (csv_folder example_self) item9)"
    using example_fs_missing by (simp add: example_self_def)
  show ?thesis
    using a b c example_fs_missing
      missing_csv_raises[of "[item7, item9, item8]" example_fs "''csv''" "''out''" None
        example_self item9 "''seaborn''"]
      missing_csv_raises[of "[item7, item8]" example_fs "''csv''" "''out''" None
        example_self item9 "''seaborn''"]
    by blast
qed

text \<open>
  Claim C6: for an item whose data file exists and any library tag, the snippet is the
  lines of: the marker \<^verbatim>\<open># id = <id>\<close>, the setup lines of the tag, the data-loading code
  and the generated code, the teardown lines of the tag, joined by newlines. Its first
  line is exactly the marker and its last line is \<^verbatim>\<open>%reset -f\<close>.
\<close>

theorem generate_code_layout:
  assumes "path_exists fs (item_csv (csv_folder self) item)"
  shows "\<exists>snippet. generate_code fs self item lib = Inr snippet \<and>
           snippet = join [CHR 0x0A]
                       ((''# id = '' @ str_int (item_id item)) # setup_lines lib @
                        main_code (csv_folder self) item @ teardown_lines lib) \<and>
           hd (split (CHR 0x0A) snippet) = ''# id = '' @ str_int (item_id item) \<and>
           last (split (CHR 0x0A) snippet) = ''%reset -f''"
proof -
  let ?nl = "CHR 0x0A"
  let ?marker = "''# id = '' @ str_int (item_id item)"
  let ?rest = "setup_lines lib @ main_code (csv_folder self) item @ teardown_lines lib"
  let ?snippet = "join [?nl] (?marker # ?rest)"
  have gen: "generate_code fs self item lib = Inr ?snippet"
    using assms by (simp add: generate_code_blocks id_marker_def)
  have rest: "?rest \<noteq> []" by (simp add: main_code_def)
  have nl: "?nl \<notin> set ?marker" using str_int_no_newline[of "item_id item"] by simp
  have eq1: "?snippet = ?marker @ ?nl # join [?nl] ?rest"
    using join_cons[OF rest, of "[?nl]" ?marker] by simp
  have first: "hd (split ?nl ?snippet) = ?marker"
    unfolding eq1 using nl by (rule hd_split_append)
  obtain front where front: "?marker # ?rest = front @ [''%reset -f'']" "front \<noteq> []"
  proof
    show "?marker # ?rest =
          (?marker # setup_lines lib @ main_code (csv_folder self) item @
             butlast (teardown_lines lib)) @ [''%reset -f'']"
      by (simp add: teardown_lines_def)
    show "?marker # setup_lines lib @ main_code (csv_folder self) item @
             butlast (teardown_lines lib) \<noteq> []" by simp
  qed
  have eq2: "?snippet = join [?nl] front @ ?nl # ''%reset -f''"
    unfolding front(1) using join_snoc[OF front(2), of "[?nl]" "''%reset -f''"] by simp
  have nl2: "?nl \<notin> set ''%reset -f''" by simp
  have lst: "last (split ?nl ?snippet) = ''%reset -f''"
    unfolding eq2 using nl2 by (rule last_split_append)
  show ?thesis using gen first lst by blast
qed

lemma generate_code_example:
  "generate_code example_fs example_self item7 ''seaborn'' =
     Inr (join [CHR 0x0A]
            [''# id = 7'', ''%matplotlib inline'', ''df = pd.read_csv(csv/data-7.csv)'',
             ''df.plot()'', ''plt.rcParams.update(plt.rcParamsDefault)'', ''sns.reset_orig()'',
             ''%reset -f''])"
  by code_simp

theorem generate_code_layout_witness:
  "path_exists example_fs (item_csv (csv_folder example_self) item7) \<and>
   (\<exists>snippet. generate_code example_fs example_self item7 ''seaborn'' = Inr snippet \<and>
           snippet = join [CHR 0x0A]
                       ((''# id = '' @ str_int (item_id item7)) # setup_lines ''seaborn'' @
                        main_code (csv_folder example_self) item7 @ teardown_lines ''seaborn'') \<and>
           hd (split (CHR 0x0A) snippet) = ''# id = '' @ str_int (item_id item7) \<and>
           last (split (CHR 0x0A) snippet) = ''%reset -f'')"
proof -
  have h: "path_exists example_fs (item_csv (csv_folder example_self) item7)"
    using example_fs_missing by (simp add: example_self_def)
  show ?thesis using h generate_code_layout[OF h, of "''seaborn''"] by blast
qed

subsection \<open>The notebook builder and the ids recovered by extraction\<close>

lemma generate_code_snippet:
  "path_exists fs (item_csv (csv_folder self) item) \<Longrightarrow>
   generate_code fs self item lib = Inr (snippet (csv_folder self) item lib)"
  by (simp add: generate_code_blocks snippet_def)

lemma generate_code_Inr:
  "generate_code fs self item lib = Inr s \<Longrightarrow>
   path_exists fs (item_csv (csv_folder self) item) \<and> s = snippet (csv_folder self) item lib"
  by (auto simp: generate_code_blocks snippet_def split: if_splits)

lemma apply_rows_ok:
  "\<forall>item \<in> set dataset. path_exists fs (item_csv (csv_folder self) item) \<Longrightarrow>
   apply_rows fs self lib dataset = Inr (map (\<lambda>item. snippet (csv_folder self) item lib) dataset)"
  by (induction dataset) (simp_all add: generate_code_snippet)

lemma apply_rows_Inr:
  "apply_rows fs self lib dataset = Inr plot_cells \<Longrightarrow>
   (\<forall>item \<in> set dataset. path_exists fs (item_csv (csv_folder self) item)) \<and>
   plot_cells = map (\<lambda>item. snippet (csv_folder self) item lib) dataset"
proof (induction dataset arbitrary: plot_cells)
  case Nil then show ?case by simp
next
  case (Cons item dataset)
  from Cons.prems obtain s rest where
    s: "generate_code fs self item lib = Inr s" and
    rest: "apply_rows fs self lib dataset = Inr rest" and
    pc: "plot_cells = s # rest"
    by (auto split: sum.splits)
  from generate_code_Inr[OF s] Cons.IH[OF rest] pc show ?case by simp
qed

lemma apply_generate_code_ok:
  "dataset \<noteq> [] \<Longrightarrow>
   \<forall>item \<in> set dataset. path_exists fs (item_csv (csv_folder self) item) \<Longrightarrow>
   apply_generate_code fs self lib dataset = Inr (map (\<lambda>item. snippet (csv_folder self) item lib) dataset)"
  by (simp add: apply_generate_code_def apply_rows_ok)

lemma apply_generate_code_Inr:
  "apply_generate_code fs self lib dataset = Inr plot_cells \<Longrightarrow>
   dataset \<noteq> [] \<and>
   (\<forall>item \<in> set dataset. path_exists fs (item_csv (csv_folder self) item)) \<and>
   plot_cells = map (\<lambda>item. snippet (csv_folder self) item lib) dataset"
  using apply_rows_Inr[of fs self lib dataset plot_cells]
  by (auto simp: apply_generate_code_def split: if_splits)

lemma build_plots_ok:
  assumes "config self = Some cfg"
    and "dataset \<noteq> []"
    and "\<forall>item \<in> set dataset. path_exists fs (item_csv (csv_folder self) item)"
    and "parent (plots_nb_path self) \<in> set dirs"
  shows "build_plots fs dirs self dataset =
           Inr (new_notebook (setup_cells (lower (plotting_lib cfg)) @
                  map (\<lambda>item. snippet (csv_folder self) item (lower (plotting_lib cfg))) dataset))"
  using assms
  by (simp add: build_plots_def Let_def apply_generate_code_ok setup_cells_def setup_block_def
        build_new_nb_def Let_def)

lemma build_plots_Inr:
  assumes "build_plots fs dirs self dataset = Inr nb"
  shows "\<exists>cfg. config self = Some cfg \<and> dataset \<noteq> [] \<and>
           (\<forall>item \<in> set dataset. path_exists fs (item_csv (csv_folder self) item)) \<and>
           parent (plots_nb_path self) \<in> set dirs \<and>
           nb = new_notebook (setup_cells (lower (plotting_lib cfg)) @
                  map (\<lambda>item. snippet (csv_folder self) item (lower (plotting_lib cfg))) dataset)"
proof -
  from assms obtain cfg where cfg: "config self = Some cfg"
    by (auto simp: build_plots_def split: option.splits)
  let ?lib = "lower (plotting_lib cfg)"
  from assms cfg obtain plot_cells where
    pc: "apply_generate_code fs self ?lib dataset = Inr plot_cells"
    by (auto simp: build_plots_def Let_def split: sum.splits)
  from apply_generate_code_Inr[OF pc] have
    ne: "dataset \<noteq> []" and
    ex: "\<forall>item \<in> set dataset. path_exists fs (item_csv (csv_folder self) item)" by simp_all
  have dir: "parent (plots_nb_path self) \<in> set dirs"
  proof (rule ccontr)
    assume "parent (plots_nb_path self) \<notin> set dirs"
    then have "\<exists>e. build_plots fs dirs self dataset = Inl e"
      using cfg pc by (simp add: build_plots_def Let_def build_new_nb_def)
    with assms show False by auto
  qed
  from build_plots_ok[OF cfg ne ex dir] assms cfg ne ex dir show ?thesis by simp
qed

lemma marker_source:
  assumes "source c = replicate k (CHR 0x0A) @ join [CHR 0x0A] ((''# id = '' @ str_int n) # blocks)"
  shows "startswith (lstrip [CHR 0x0A] (source c)) ''# id = '' \<and> marker_id c = Some n"
proof -
  let ?marker = "''# id = '' @ str_int n"
  let ?body = "join [CHR 0x0A] (?marker # blocks)"
  have nl: "CHR 0x0A \<notin> set ?marker" using str_int_no_newline[of n] by simp
  have pre: "prefix ''# id = '' ?body" by (cases blocks) simp_all
  have "\<exists>t. ?body = CHR ''#'' # t" by (cases blocks) simp_all
  then obtain t where t: "?body = CHR ''#'' # t" by blast
  have ls0: "lstrip [CHR 0x0A] ?body = ?body"
    by (simp only: t) (simp add: lstrip_def)
  have ls: "lstrip [CHR 0x0A] (source c) = ?body"
    by (simp only: assms lstrip_replicate ls0)
  have hd: "hd (split (CHR 0x0A) ?body) = ?marker" using nl by (rule hd_split_join)
  have idx: "py_int (lstrip ''# id = '' ?marker) = Some n"
    by (simp only: lstrip_marker py_int_str_int)
  show ?thesis by (simp only: marker_id_def ls startswith_def pre hd idx simp_thms)
qed

lemma snippet_cell:
  assumes "cell_type c = ''code''" and "source c = snippet folder item lib"
  shows "marked c \<and> marker_id c = Some (item_id item) \<and> startswith (source c) ''# id = ''"
proof -
  let ?blocks = "setup_lines lib @ main_code folder item @ teardown_lines lib"
  have src: "source c = replicate 0 (CHR 0x0A) @
               join [CHR 0x0A] ((''# id = '' @ str_int (item_id item)) # ?blocks)"
    using assms(2) by (simp add: snippet_def id_marker_def)
  have "prefix ''# id = '' (join [CHR 0x0A] ((''# id = '' @ str_int (item_id item)) # ?blocks))"
    by (cases ?blocks) simp_all
  then have "startswith (source c) ''# id = ''"
    using assms(2) by (simp add: startswith_def snippet_def id_marker_def)
  then show ?thesis using marker_source[OF src] assms(1) by (simp add: marked_def)
qed

lemma setup_cell_unmarked:
  assumes "source c = setup_block"
  shows "\<not> marked c \<and> \<not> startswith (source c) ''# id = ''"
  by (simp add: assms marked_def setup_block_def lstrip_def startswith_def)

lemma parse_cells_filter_marked: "parse_cells cs acc = parse_cells (filter marked cs) acc"
proof (induction cs arbitrary: acc)
  case Nil show ?case by simp
next
  case (Cons c cs)
  show ?case
  proof (cases "marked c")
    case False
    then show ?thesis using Cons.IH[of acc] by (auto simp: marked_def Let_def)
  next
    case True
    then show ?thesis using Cons.IH
      by (auto simp: marked_def Let_def split: option.splits prod.splits)
  qed
qed

lemma snippet_cells:
  "list_all2 (\<lambda>item c. cell_type c = ''code'' \<and> source c = snippet folder item lib) dataset cs \<Longrightarrow>
   filter marked cs = cs \<and>
   filter (\<lambda>c. startswith (source c) ''# id = '') cs = cs \<and>
   (\<forall>c \<in> set cs. marker_id c \<noteq> None) \<and>
   map (\<lambda>c. the (marker_id c)) cs = map item_id dataset"
proof (induction rule: list_all2_induct)
  case Nil show ?case by simp
next
  case (Cons item dataset c cs)
  from Cons.hyps(1) snippet_cell[of c folder item lib] have
    "marked c \<and> marker_id c = Some (item_id item) \<and> startswith (source c) ''# id = ''" by blast
  with Cons.IH show ?case by simp
qed

lemma setup_cells_unmarked:
  "list_all2 (\<lambda>b c. source c = b) (setup_cells lib) cs \<Longrightarrow>
   filter marked cs = [] \<and> filter (\<lambda>c. startswith (source c) ''# id = '') cs = []"
  using setup_cell_unmarked
  by (auto simp: setup_cells_def list_all2_Cons1 filter_empty_conv split: if_splits)

text \<open>
  Claim C7: for a dataset of \<open>n\<close> items, \<open>n\<close> at least 1, whose data files exist, and
  an output folder that exists, \<open>build_plots\<close> writes a notebook of exactly \<open>n\<close> code cells,
  or \<open>n + 1\<close> when the library tag contains \<^verbatim>\<open>lets-plot\<close>; in that case the first cell is
  the setup block; the remaining \<open>n\<close> cells are the snippets of the items, in the order of
  the dataset. (On a dataset without rows \<open>build_plots\<close> raises, see
  \<open>build_plots_empty_dataset\<close>.)
\<close>

theorem notebook_cells_in_input_order:
  assumes "config self = Some cfg"
    and "dataset \<noteq> []"
    and "\<forall>item \<in> set dataset. path_exists fs (item_csv (csv_folder self) item)"
    and "parent (plots_nb_path self) \<in> set dirs"
  shows "\<exists>nb. build_plots fs dirs self dataset = Inr nb \<and>
           length (cells nb) =
             length dataset + (if contains (lower (plotting_lib cfg)) ''lets-plot'' then 1 else 0) \<and>
           (\<forall>c \<in> set (cells nb). cell_type c = ''code'' \<and> outputs c = []) \<and>
           (contains (lower (plotting_lib cfg)) ''lets-plot'' \<longrightarrow>
              source (hd (cells nb)) = setup_block) \<and>
           list_all2 (\<lambda>item c. generate_code fs self item (lower (plotting_lib cfg)) = Inr (source c))
             dataset
             (drop (if contains (lower (plotting_lib cfg)) ''lets-plot'' then 1 else 0) (cells nb))"
proof -
  let ?lib = "lower (plotting_lib cfg)"
  let ?snips = "map (\<lambda>item. snippet (csv_folder self) item ?lib) dataset"
  let ?nb = "new_notebook (setup_cells ?lib @ ?snips)"
  have b: "build_plots fs dirs self dataset = Inr ?nb" using assms by (rule build_plots_ok)
  have len: "length (cells ?nb) = length dataset + (if contains ?lib ''lets-plot'' then 1 else 0)"
    by (simp add: new_notebook_def setup_cells_def)
  have code: "\<forall>c \<in> set (cells ?nb). cell_type c = ''code'' \<and> outputs c = []"
    by (auto simp: new_notebook_def new_code_cell_def)
  have stp: "contains ?lib ''lets-plot'' \<longrightarrow> source (hd (cells ?nb)) = setup_block"
    by (simp add: new_notebook_def setup_cells_def new_code_cell_def)
  have dr: "drop (if contains ?lib ''lets-plot'' then 1 else 0) (cells ?nb) = map new_code_cell ?snips"
    by (simp add: new_notebook_def setup_cells_def)
  have "list_all2 (\<lambda>item c. generate_code fs self item ?lib = Inr (source c))
          dataset (map new_code_cell ?snips)"
    using assms(3)
    by (simp add: list_all2_map2 list_all2_same generate_code_snippet new_code_cell_def)
  with dr have items: "list_all2 (\<lambda>item c. generate_code fs self item ?lib = Inr (source c))
          dataset (drop (if contains ?lib ''lets-plot'' then 1 else 0) (cells ?nb))" by simp
  show ?thesis using b len code stp items by blast
qed

text \<open>
  Claim C9: for a notebook that \<open>build_plots\<close> wrote and that was then executed,
  extraction succeeds and the ids of the Outcomes are the ids of the items, in order, so
  they form a subset of the item ids; the cells extraction considers are exactly those whose
  source begins with \<^verbatim>\<open># id = \<close>; and the other cells are skipped without any effect:
  extraction gives the same result on the marked cells alone.
\<close>

theorem extraction_ids_are_item_ids:
  assumes "build_plots fs dirs self dataset = Inr nb" and "executed nb nb'"
  shows "(\<exists>results. parse_plots_notebook nb' = Inr results \<and>
            map res_id results = map item_id dataset \<and>
            set (map res_id results) \<subseteq> set (map item_id dataset)) \<and>
         filter marked (cells nb') = filter (\<lambda>c. startswith (source c) ''# id = '') (cells nb') \<and>
         parse_plots_notebook nb' = parse_plots_notebook \<lparr>cells = filter marked (cells nb')\<rparr>"
proof -
  from build_plots_Inr[OF assms(1)] obtain cfg where
    cfg: "config self = Some cfg" and
    nb: "nb = new_notebook (setup_cells (lower (plotting_lib cfg)) @
                  map (\<lambda>item. snippet (csv_folder self) item (lower (plotting_lib cfg))) dataset)"
    by auto
  let ?lib = "lower (plotting_lib cfg)"
  let ?snip = "\<lambda>item. snippet (csv_folder self) item ?lib"
  have cn: "cells nb = map new_code_cell (setup_cells ?lib @ map ?snip dataset)"
    by (simp add: nb new_notebook_def)
  have "list_all2 (\<lambda>b c'. cell_type c' = ''code'' \<and> source c' = b)
          (setup_cells ?lib @ map ?snip dataset) (cells nb')"
    using assms(2) unfolding executed_def cn list_all2_map1
    by (simp add: new_code_cell_def)
  then obtain ss ds where
    sp: "cells nb' = ss @ ds" and
    ss: "list_all2 (\<lambda>b c'. cell_type c' = ''code'' \<and> source c' = b) (setup_cells ?lib) ss" and
    ds: "list_all2 (\<lambda>b c'. cell_type c' = ''code'' \<and> source c' = b) (map ?snip dataset) ds"
    by (auto simp: list_all2_append1)
  from ss have "list_all2 (\<lambda>b c. source c = b) (setup_cells ?lib) ss"
    by (rule list_all2_mono) simp
  from setup_cells_unmarked[OF this] have
    s0: "filter marked ss = []" "filter (\<lambda>c. startswith (source c) ''# id = '') ss = []" by simp_all
  from ds have "list_all2 (\<lambda>item c. cell_type c = ''code'' \<and> source c = ?snip item) dataset ds"
    by (simp add: list_all2_map1)
  from snippet_cells[OF this] have
    d0: "filter marked ds = ds" "filter (\<lambda>c. startswith (source c) ''# id = '') ds = ds"
        "\<forall>c \<in> set ds. marker_id c \<noteq> None"
        "map (\<lambda>c. the (marker_id c)) ds = map item_id dataset" by simp_all
  have fm: "filter marked (cells nb') = ds" by (simp add: sp s0 d0)
  have fs: "filter (\<lambda>c. startswith (source c) ''# id = '') (cells nb') = ds"
    by (simp add: sp s0 d0)
  let ?results = "map (\<lambda>c. outcome_of c (the (marker_id c))) ds"
  have p: "parse_plots_notebook nb' = Inr ?results"
    using d0(3) by (simp add: parse_plots_notebook_def parse_cells_Inr fm)
  have ids: "map res_id ?results = map item_id dataset"
    using d0(4) by (simp add: outcome_of_def comp_def)
  have skip: "parse_plots_notebook nb' = parse_plots_notebook \<lparr>cells = filter marked (cells nb')\<rparr>"
    using parse_cells_filter_marked[of "cells nb'" "[]"] by (simp add: parse_plots_notebook_def)
  from p ids have "\<exists>results. parse_plots_notebook nb' = Inr results \<and>
            map res_id results = map item_id dataset \<and>
            set (map res_id results) \<subseteq> set (map item_id dataset)"
    by (metis subset_refl)
  then show ?thesis using fm fs skip by simp
qed

lemma example_config: "config example_self = Some \<lparr>plotting_lib = ''Seaborn lets-plot''\<rparr>"
  by (simp add: example_self_def)

lemma example_files:
  "\<forall>item \<in> set [item7, item8]. path_exists example_fs (item_csv (csv_folder example_self) item)"
  using example_fs_missing by (simp add: example_self_def)

lemma example_dir: "parent (plots_nb_path example_self) \<in> set example_dirs"
  by (simp add: example_self_def example_dirs_def path_div_def)

lemma example_build:
  "build_plots example_fs example_dirs example_self [item7, item8] = Inr example_built"
  by code_simp

lemma example_executed: "executed example_built example_run"
  by code_simp

lemma example_parse:
  "parse_plots_notebook example_run =
     Inr [\<lparr>res_id = 7, error = [], plots_generated = [''iVBOR''], has_plot = True\<rparr>,
          \<lparr>res_id = 8, error = ''ZeroDivisionError: division by zero'', plots_generated = [],
           has_plot = False\<rparr>]"
  by code_simp

text \<open>The two failures of \<open>build_plots\<close> that the hypotheses of claim C7 exclude.\<close>

lemma build_plots_empty_dataset:
  "config self = Some cfg \<Longrightarrow> build_plots fs dirs self [] = Inl AttributeError"
  by (simp add: build_plots_def Let_def apply_generate_code_def)

lemma build_plots_missing_folder:
  "build_plots example_fs [] example_self [item7, item8] =
     Inl (FileNotFoundError
            (''[Errno 2] No such file or directory: '' @ [CHR 0x27] @ ''out/all_plots.ipynb'' @
             [CHR 0x27]))"
  by code_simp

theorem notebook_cells_in_input_order_witness:
  "config example_self = Some \<lparr>plotting_lib = ''Seaborn lets-plot''\<rparr> \<and>
   [item7, item8] \<noteq> [] \<and>
   path_exists example_fs (item_csv (csv_folder example_self) item7) \<and>
   path_exists example_fs (item_csv (csv_folder example_self) item8) \<and>
   parent (plots_nb_path example_self) \<in> set example_dirs \<and>
   (\<exists>nb. build_plots example_fs example_dirs example_self [item7, item8] = Inr nb \<and>
           length (cells nb) =
             length [item7, item8] +
             (if contains (lower (plotting_lib \<lparr>plotting_lib = ''Seaborn lets-plot''\<rparr>)) ''lets-plot''
              then 1 else 0) \<and>
           (\<forall>c \<in> set (cells nb). cell_type c = ''code'' \<and> outputs c = []) \<and>
           (contains (lower (plotting_lib \<lparr>plotting_lib = ''Seaborn lets-plot''\<rparr>)) ''lets-plot'' \<longrightarrow>
              source (hd (cells nb)) = setup_block) \<and>
           list_all2 (\<lambda>item c. generate_code example_fs example_self item
                                  (lower (plotting_lib \<lparr>plotting_lib = ''Seaborn lets-plot''\<rparr>)) =
                                Inr (source c))
             [item7, item8]
             (drop (if contains (lower (plotting_lib \<lparr>plotting_lib = ''Seaborn lets-plot''\<rparr>))
                          ''lets-plot'' then 1 else 0) (cells nb)))"
proof -
  have ne: "[item7, item8] \<noteq> []" by simp
  have "path_exists example_fs (item_csv (csv_folder example_self) item7)"
    and "path_exists example_fs (item_csv (csv_folder example_self) item8)"
    using example_files by simp_all
  then show ?thesis
    using example_config ne example_dir
      notebook_cells_in_input_order[OF example_config ne example_files example_dir]
    by blast
qed

theorem extraction_ids_are_item_ids_witness:
  "build_plots example_fs example_dirs example_self [item7, item8] = Inr example_built \<and>
   executed example_built example_run \<and>
   (\<exists>results. parse_plots_notebook example_run = Inr results \<and>
            map res_id results = map item_id [item7, item8] \<and>
            set (map res_id results) \<subseteq> set (map item_id [item7, item8])) \<and>
   filter marked (cells example_run) =
     filter (\<lambda>c. startswith (source c) ''# id = '') (cells example_run) \<and>
   parse_plots_notebook example_run =
     parse_plots_notebook \<lparr>cells = filter marked (cells example_run)\<rparr>"
  using example_build example_executed
    extraction_ids_are_item_ids[OF example_build example_executed]
  by blast

subsection \<open>The merge of the Outcomes onto the items\<close>





















lemma draw_plots_merge_example:
  "draw_plots_merge example_dataset example_response =
     Inr \<lparr>columns = [''id'', ''code'', ''error'', ''plots_generated'', ''has_plot''],
          rows = [[(''id'', IntV 7), (''code'', StrV ''df.plot()''), (''error'', StrV []),
                   (''plots_generated'', ListV [''iVBOR'']), (''has_plot'', BoolV True)],
                  [(''id'', IntV 9), (''code'', StrV ''df.hist()''), (''error'', NaN),
                   (''plots_generated'', NaN), (''has_plot'', NaN)]]\<rparr>"
  by code_simp

text \<open>
  A frame without the column \<^verbatim>\<open>id\<close>, such as \<^verbatim>\<open>pd.DataFrame([])\<close>, makes
  \<^verbatim>\<open>.drop("id")\<close> raise. \<^verbatim>\<open>draw_plots\<close> never merges such a frame: the notebook it parses
  has one marked cell for each item of a dataset that is not empty.
\<close>

lemma draw_plots_merge_empty_response:
  "draw_plots_merge example_dataset \<lparr>columns = [], rows = []\<rparr> = Inl (KeyError ''id'')"
  by code_simp

text \<open>
  A frame whose ids are strings cannot be merged on the integer ids of the Outcomes:
  \<^verbatim>\<open>merge\<close> raises \<^verbatim>\<open>ValueError\<close>.
\<close>

lemma draw_plots_merge_string_ids:
  "draw_plots_merge
     \<lparr>columns = [''id'', ''code''], rows = [[(''id'', StrV ''7''), (''code'', StrV ''df.plot()'')]]\<rparr>
     example_response = Inl ValueError"
  by code_simp


end
